theory Spec2Isabelle
  imports Main "HOL-Library.AList"
begin

section \<open>Values, dictionaries and formatting\<close>

text \<open>
  The operator of \<^verbatim>\<open>src/k8s_operator.py\<close> keeps two Python containers: the dict
  \<^verbatim>\<open>self.databases\<close> (name to \<^verbatim>\<open>DatabaseResource\<close>) and the list
  \<^verbatim>\<open>self.reconciliation_history\<close>. A Python dict keeps insertion order, an assignment to
  a key that is present keeps the key's position and an assignment to a new key appends; this
  is \<open>AList.update\<close> on an association list, and \<^verbatim>\<open>del d[k]\<close> is \<open>AList.delete\<close>.

  The values of a spec dict are Python objects. The model has \<^verbatim>\<open>None\<close>, strings and
  integers, which is what the demo driver and the type annotations of the source use.
  Dicts are modelled as values: the model does not follow a spec dict that the caller keeps
  and mutates behind the operator's back.
\<close>

datatype pyval = VNone | VStr string | VInt int

type_synonym pydict = "(string \<times> pyval) list"

text \<open>\<^verbatim>\<open>d.get(k)\<close>: the value under \<open>k\<close>, \<^verbatim>\<open>None\<close> when the key is missing.\<close>

definition dict_get :: "pydict \<Rightarrow> string \<Rightarrow> pyval" where
  "dict_get d k = (case map_of d k of None \<Rightarrow> VNone | Some v \<Rightarrow> v)"

text \<open>\<^verbatim>\<open>d.update(other)\<close>: the items of \<open>other\<close> are assigned in order.\<close>

definition dict_update :: "pydict \<Rightarrow> pydict \<Rightarrow> pydict" where
  "dict_update d other = fold (\<lambda>(k, v). AList.update k v) other d"

definition digit_char :: "nat \<Rightarrow> char" where
  "digit_char d = ''0123456789'' ! (d mod 10)"

function show_nat :: "nat \<Rightarrow> string" where
  "show_nat n = (if n < 10 then [digit_char n] else show_nat (n div 10) @ [digit_char n])"
  by pat_completeness auto
termination
  by (relation "measure (\<lambda>n. n)") auto

declare show_nat.simps [simp del]

text \<open>What an f-string puts for \<^verbatim>\<open>{v}\<close>.\<close>

definition py_str :: "pyval \<Rightarrow> string" where
  "py_str v =
     (case v of
        VNone \<Rightarrow> ''None''
      | VStr s \<Rightarrow> s
      | VInt i \<Rightarrow> (if i < 0 then CHR ''-'' # show_nat (nat (- i)) else show_nat (nat i)))"

text \<open>
  \<^verbatim>\<open>datetime.now()\<close> is a reading of the clock; every operation that reads the clock
  takes the reading as an argument. \<^verbatim>\<open>strftime('%Y%m%d-%H%M%S')\<close> writes the year on four
  digits (years 1000 to 9999) and the other fields on two.
\<close>

record datetime =
  year :: nat
  month :: nat
  day :: nat
  hour :: nat
  minute :: nat
  second :: nat

definition pad2 :: "nat \<Rightarrow> string" where
  "pad2 n = [digit_char (n div 10), digit_char n]"

definition pad4 :: "nat \<Rightarrow> string" where
  "pad4 n = [digit_char (n div 1000), digit_char (n div 100), digit_char (n div 10), digit_char n]"

definition strftime :: "datetime \<Rightarrow> string" where
  "strftime t =
     pad4 (year t) @ pad2 (month t) @ pad2 (day t) @ ''-''
       @ pad2 (hour t) @ pad2 (minute t) @ pad2 (second t)"

section \<open>The data model\<close>

record health_info =
  health_status :: string
  uptime :: string
  connections :: int
  storage_used :: string

text \<open>
  The status dict always has \<^verbatim>\<open>phase\<close>, \<^verbatim>\<open>ready\<close> and \<^verbatim>\<open>message\<close>; the keys
  \<^verbatim>\<open>connection_string\<close> and \<^verbatim>\<open>health\<close> are added later, so they are options.
  The phase is a string, as in the source.
\<close>

record status =
  phase :: string
  ready :: bool
  message :: string
  connection_string :: "string option"
  health :: "health_info option"

record metadata =
  created_at :: datetime
  generation :: int

record resource =
  name :: string
  spec :: pydict
  status :: status
  metadata :: metadata

record event =
  timestamp :: datetime
  database :: string
  event_phase :: string
  action :: string

record operator =
  databases :: "(string \<times> resource) list"
  reconciliation_history :: "event list"

text \<open>The exceptions of the source: the \<^verbatim>\<open>ValueError\<close> it raises and the
  \<^verbatim>\<open>KeyError\<close> of a subscript on a missing key.\<close>

datatype error = ValueError string | KeyError string

text \<open>\<^verbatim>\<open>DatabaseResource.__init__\<close>\<close>

definition DatabaseResource :: "datetime \<Rightarrow> string \<Rightarrow> pydict \<Rightarrow> resource" where
  "DatabaseResource now n sp =
     \<lparr>name = n, spec = sp,
      status = \<lparr>phase = ''Pending'', ready = False, message = ''Waiting for reconciliation'',
                connection_string = None, health = None\<rparr>,
      metadata = \<lparr>created_at = now, generation = 1\<rparr>\<rparr>"

text \<open>\<^verbatim>\<open>DatabaseOperator.__init__\<close>\<close>

definition init_operator :: operator where
  "init_operator = \<lparr>databases = [], reconciliation_history = []\<rparr>"

section \<open>Phase handlers\<close>

text \<open>
  A handler mutates the resource object it is given and may raise in the middle: its model
  returns the exception, if any, and the object as the handler left it. The log lines are
  not modelled, but the subscripts inside their f-strings are: they are evaluated, and raise
  \<^verbatim>\<open>KeyError\<close> on a missing key.
\<close>

definition provision_database :: "resource \<Rightarrow> error option \<times> resource" where
  "provision_database db =
     (if map_of (spec db) ''engine'' = None then (Some (KeyError ''engine''), db)
      else if map_of (spec db) ''version'' = None then (Some (KeyError ''version''), db)
      else (None, db\<lparr>status := (status db)\<lparr>phase := ''Provisioning'',
                        message := ''Database provisioning in progress''\<rparr>\<rparr>))"

definition check_provisioning_status :: "resource \<Rightarrow> error option \<times> resource" where
  "check_provisioning_status db =
     (let db1 = db\<lparr>status := (status db)\<lparr>phase := ''Running'', ready := True,
                       message := ''Database is ready''\<rparr>\<rparr>
      in case map_of (spec db1) ''engine'' of
           None \<Rightarrow> (Some (KeyError ''engine''), db1)
         | Some e \<Rightarrow>
             (None, db1\<lparr>status := (status db1)\<lparr>connection_string :=
                      Some (py_str e @ ''://localhost:5432/'' @ name db1)\<rparr>\<rparr>))"

definition monitor_health :: "resource \<Rightarrow> resource" where
  "monitor_health db =
     db\<lparr>status := (status db)\<lparr>health :=
        Some \<lparr>health_status = ''healthy'', uptime = ''1h 23m'', connections = 15,
              storage_used = ''2.3 GB''\<rparr>\<rparr>\<rparr>"

definition apply_update :: "resource \<Rightarrow> error option \<times> resource" where
  "apply_update db =
     (if map_of (spec db) ''version'' = None then (Some (KeyError ''version''), db)
      else (None, db\<lparr>status := (status db)\<lparr>phase := ''Running'',
                        message := ''Update completed successfully''\<rparr>\<rparr>))"

text \<open>\<^verbatim>\<open>_delete_database\<close>: \<^verbatim>\<open>del self.databases[db.name]\<close> raises on a missing key.\<close>

definition delete_database_impl :: "resource \<Rightarrow> operator \<Rightarrow> error option \<times> operator" where
  "delete_database_impl db op =
     (if map_of (databases op) (name db) = None then (Some (KeyError (name db)), op)
      else (None, op\<lparr>databases := AList.delete (name db) (databases op)\<rparr>))"

section \<open>The reconciliation engine\<close>

text \<open>
  The object \<open>db\<close> is the one held under the key \<open>n\<close>, so what a handler does to it is
  seen through the store: \<open>in_place\<close> writes the handler's result back under \<open>n\<close>.
\<close>

definition in_place ::
  "string \<Rightarrow> error option \<times> resource \<Rightarrow> operator \<Rightarrow> error option \<times> resource \<times> operator" where
  "in_place n r op =
     (fst r, snd r, op\<lparr>databases := AList.update n (snd r) (databases op)\<rparr>)"

text \<open>The \<^verbatim>\<open>if\<close>/\<^verbatim>\<open>elif\<close> chain of \<^verbatim>\<open>reconcile\<close>; it has no \<^verbatim>\<open>else\<close>.\<close>

definition dispatch ::
  "string \<Rightarrow> resource \<Rightarrow> operator \<Rightarrow> error option \<times> resource \<times> operator" where
  "dispatch n db op =
     (let ph = phase (status db) in
      if ph = ''Pending'' then in_place n (provision_database db) op
      else if ph = ''Provisioning'' then in_place n (check_provisioning_status db) op
      else if ph = ''Running'' then in_place n (None, monitor_health db) op
      else if ph = ''Updating'' then in_place n (apply_update db) op
      else if ph = ''Deleting'' then
        (case delete_database_impl db op of (err, op1) \<Rightarrow> (err, db, op1))
      else (None, db, op))"

text \<open>
  \<^verbatim>\<open>reconcile\<close> returns \<^verbatim>\<open>None\<close> on every path; the first component of the result
  is the exception that left it, if any. The event (\<open>reconciled\<close>, lines 86 to 91) is
  appended after the handler, with the phase the object has then.
\<close>

definition reconciled :: "datetime \<Rightarrow> string \<Rightarrow> string \<Rightarrow> event" where
  "reconciled now n ph =
     \<lparr>timestamp = now, database = n, event_phase = ph, action = ''reconciled''\<rparr>"

definition reconcile :: "datetime \<Rightarrow> string \<Rightarrow> operator \<Rightarrow> error option \<times> operator" where
  "reconcile now n op =
     (case map_of (databases op) n of
        None \<Rightarrow> (None, op)
      | Some db \<Rightarrow>
          (case dispatch n db op of
             (Some e, db1, op1) \<Rightarrow> (Some e, op1)
           | (None, db1, op1) \<Rightarrow>
               (None, op1\<lparr>reconciliation_history := reconciliation_history op1 @
                  [reconciled now n (phase (status db1))]\<rparr>)))"

section \<open>The operations\<close>

definition required_fields :: "string list" where
  "required_fields = [''engine'', ''version'', ''storage'']"

text \<open>
  The validation loop of \<^verbatim>\<open>create_database\<close> raises at the first required field that
  is not a key of the spec: the head of \<open>missing_fields\<close>.
  \<^verbatim>\<open>create_database\<close> reads the clock twice: in the constructor and, after the
  provisioning steps, in the event of the reconcile it triggers. It returns the object it
  built, which the reconcile has mutated by then; the model reads it back from the store.
\<close>

definition missing_fields :: "pydict \<Rightarrow> string list" where
  "missing_fields sp = filter (\<lambda>f. map_of sp f = None) required_fields"

definition create_database ::
  "datetime \<Rightarrow> datetime \<Rightarrow> string \<Rightarrow> pydict \<Rightarrow> operator \<Rightarrow> (error + resource) \<times> operator" where
  "create_database t_new t_event n sp op =
     (case missing_fields sp of
        f # _ \<Rightarrow> (Inl (ValueError (''Missing required field: '' @ f)), op)
      | [] \<Rightarrow>
          (let db = DatabaseResource t_new n sp;
               op1 = op\<lparr>databases := AList.update n db (databases op)\<rparr>
           in case reconcile t_event n op1 of
                (Some e, op2) \<Rightarrow> (Inl e, op2)
              | (None, op2) \<Rightarrow>
                  (Inr (case map_of (databases op2) n of Some db2 \<Rightarrow> db2 | None \<Rightarrow> db), op2)))"

text \<open>The items of the new spec that differ from the current one (lines 190 to 193).\<close>

definition changes :: "pydict \<Rightarrow> pydict \<Rightarrow> (string \<times> pyval) list" where
  "changes cur new = filter (\<lambda>(k, v). dict_get cur k \<noteq> v) new"

text \<open>Lines 200 to 202: what \<^verbatim>\<open>update_database\<close> does to the object before it calls
  \<^verbatim>\<open>reconcile\<close>.\<close>

definition mark_updating :: "resource \<Rightarrow> pydict \<Rightarrow> resource" where
  "mark_updating db new =
     db\<lparr>spec := dict_update (spec db) new,
        metadata := (metadata db)\<lparr>generation := generation (metadata db) + 1\<rparr>,
        status := (status db)\<lparr>phase := ''Updating''\<rparr>\<rparr>"

definition update_database ::
  "datetime \<Rightarrow> string \<Rightarrow> pydict \<Rightarrow> operator \<Rightarrow> error option \<times> operator" where
  "update_database now n new op =
     (case map_of (databases op) n of
        None \<Rightarrow> (None, op)
      | Some db \<Rightarrow>
          if changes (spec db) new \<noteq> []
          then reconcile now n
                 (op\<lparr>databases := AList.update n (mark_updating db new) (databases op)\<rparr>)
          else (None, op))"

text \<open>Lines 217 and 218 of \<^verbatim>\<open>delete_database\<close>.\<close>

definition mark_deleting :: "resource \<Rightarrow> resource" where
  "mark_deleting db = db\<lparr>status := (status db)\<lparr>phase := ''Deleting''\<rparr>\<rparr>"

definition delete_database :: "datetime \<Rightarrow> string \<Rightarrow> operator \<Rightarrow> error option \<times> operator" where
  "delete_database now n op =
     (case map_of (databases op) n of
        None \<Rightarrow> (None, op)
      | Some db \<Rightarrow>
          reconcile now n (op\<lparr>databases := AList.update n (mark_deleting db) (databases op)\<rparr>))"

definition scale_database :: "string \<Rightarrow> int \<Rightarrow> operator \<Rightarrow> error option \<times> operator" where
  "scale_database n replicas op =
     (case map_of (databases op) n of
        None \<Rightarrow> (None, op)
      | Some db \<Rightarrow>
          (None, op\<lparr>databases :=
             AList.update n (db\<lparr>spec := AList.update ''replicas'' (VInt replicas) (spec db)\<rparr>)
               (databases op)\<rparr>))"

text \<open>\<^verbatim>\<open>backup_database\<close> returns the backup name, or \<^verbatim>\<open>None\<close> for an unknown name.\<close>

definition backup_database :: "datetime \<Rightarrow> string \<Rightarrow> operator \<Rightarrow> string option \<times> operator" where
  "backup_database now n op =
     (case map_of (databases op) n of
        None \<Rightarrow> (None, op)
      | Some db \<Rightarrow> (Some (n @ ''-backup-'' @ strftime now), op))"

text \<open>
  \<^verbatim>\<open>get_database_status\<close> returns a dict: either \<^verbatim>\<open>{'error': 'Database not found'}\<close>
  or the status view. \<^verbatim>\<open>db.status.get('health', {})\<close> is the health entry, the empty
  dict (here \<open>None\<close>) when there is none.
\<close>

record status_view =
  view_name :: string
  view_engine :: pyval
  view_version :: pyval
  view_phase :: string
  view_ready :: bool
  view_message :: string
  view_created_at :: datetime
  view_generation :: int
  view_health :: "health_info option"

datatype status_result = ErrorDict string | StatusView status_view

definition get_database_status :: "string \<Rightarrow> operator \<Rightarrow> error + status_result" where
  "get_database_status n op =
     (case map_of (databases op) n of
        None \<Rightarrow> Inr (ErrorDict ''Database not found'')
      | Some db \<Rightarrow>
          (case map_of (spec db) ''engine'' of
             None \<Rightarrow> Inl (KeyError ''engine'')
           | Some e \<Rightarrow>
               (case map_of (spec db) ''version'' of
                  None \<Rightarrow> Inl (KeyError ''version'')
                | Some v \<Rightarrow>
                    Inr (StatusView
                      \<lparr>view_name = n, view_engine = e, view_version = v,
                       view_phase = phase (status db), view_ready = ready (status db),
                       view_message = message (status db),
                       view_created_at = created_at (metadata db),
                       view_generation = generation (metadata db),
                       view_health = health (status db)\<rparr>))))"

text \<open>A list comprehension: the first element that raises ends it.\<close>

fun collect :: "(error + 'a) list \<Rightarrow> error + 'a list" where
  "collect [] = Inr []"
| "collect (Inl e # rs) = Inl e"
| "collect (Inr x # rs) = (case collect rs of Inl e \<Rightarrow> Inl e | Inr xs \<Rightarrow> Inr (x # xs))"

definition list_databases :: "operator \<Rightarrow> error + status_result list" where
  "list_databases op = collect (map (\<lambda>n. get_database_status n op) (map fst (databases op)))"

section \<open>Sequences of calls\<close>

text \<open>
  The states the operator can be in between two calls are those a sequence of calls of the
  mutating operations leads to from the empty operator. A call that raises leaves the state
  as it was when the exception left it. The read-only operations are not listed.
\<close>

datatype call =
    CreateDatabase datetime datetime string pydict
  | Reconcile datetime string
  | UpdateDatabase datetime string pydict
  | DeleteDatabase datetime string
  | ScaleDatabase string int
  | BackupDatabase datetime string

fun step :: "call \<Rightarrow> operator \<Rightarrow> operator" where
  "step (CreateDatabase t_new t_event n sp) op = snd (create_database t_new t_event n sp op)"
| "step (Reconcile now n) op = snd (reconcile now n op)"
| "step (UpdateDatabase now n new) op = snd (update_database now n new op)"
| "step (DeleteDatabase now n) op = snd (delete_database now n op)"
| "step (ScaleDatabase n replicas) op = snd (scale_database n replicas op)"
| "step (BackupDatabase now n) op = snd (backup_database now n op)"

definition run :: "call list \<Rightarrow> operator" where
  "run cs = fold step cs init_operator"

section \<open>Well-formed stores\<close>

text \<open>
  What holds of a resource held under the key \<open>k\<close> between two calls: it carries its key
  as its name, its spec has the required fields, and it is either provisioning and not ready,
  or running. The keys of the store are distinct, as those of a dict are.
\<close>

definition resource_ok :: "string \<Rightarrow> resource \<Rightarrow> bool" where
  "resource_ok k db \<longleftrightarrow>
     name db = k \<and> missing_fields (spec db) = [] \<and>
     (phase (status db) = ''Running'' \<or>
      phase (status db) = ''Provisioning'' \<and> \<not> ready (status db))"

definition store_ok :: "operator \<Rightarrow> bool" where
  "store_ok op \<longleftrightarrow>
     distinct (map fst (databases op)) \<and>
     list_all (\<lambda>(k, db). resource_ok k db) (databases op)"

section \<open>The scenario of the specification\<close>

definition fixed_clock :: datetime where
  "fixed_clock = \<lparr>year = 2024, month = 1, day = 1, hour = 12, minute = 0, second = 0\<rparr>"

definition prod_spec :: pydict where
  "prod_spec =
     [(''engine'', VStr ''postgresql''), (''version'', VStr ''14.9''), (''storage'', VStr ''100Gi'')]"

text \<open>The resource of the scenario while it is provisioned and once it runs, and the
  operator after the creation and after one more reconcile.\<close>

definition prod_provisioning :: resource where
  "prod_provisioning =
     \<lparr>name = ''prod-db'', spec = prod_spec,
      status = \<lparr>phase = ''Provisioning'', ready = False,
                message = ''Database provisioning in progress'',
                connection_string = None, health = None\<rparr>,
      metadata = \<lparr>created_at = fixed_clock, generation = 1\<rparr>\<rparr>"

definition prod_running :: resource where
  "prod_running =
     \<lparr>name = ''prod-db'', spec = prod_spec,
      status = \<lparr>phase = ''Running'', ready = True, message = ''Database is ready'',
                connection_string = Some ''postgresql://localhost:5432/prod-db'',
                health = None\<rparr>,
      metadata = \<lparr>created_at = fixed_clock, generation = 1\<rparr>\<rparr>"

definition prod_created :: operator where
  "prod_created = run [CreateDatabase fixed_clock fixed_clock ''prod-db'' prod_spec]"

definition prod_ready :: operator where
  "prod_ready =
     run [CreateDatabase fixed_clock fixed_clock ''prod-db'' prod_spec,
          Reconcile fixed_clock ''prod-db'']"

text \<open>The operator that \<^verbatim>\<open>update_database\<close> hands to \<^verbatim>\<open>reconcile\<close> (line 204) when the
  running resource of the scenario is updated to version 15.0.\<close>

definition prod_updating :: operator where
  "prod_updating =
     prod_ready\<lparr>databases :=
       AList.update ''prod-db'' (mark_updating prod_running [(''version'', VStr ''15.0'')])
         (databases prod_ready)\<rparr>"

section \<open>Reading a timestamp back\<close>

text \<open>
  What it means for a string to be a date written as \<^verbatim>\<open>YYYYMMDD-HHMMSS\<close>: its characters
  are decimal digits around one dash, and each group of digits, read as a decimal number, is
  a field of the date. \<open>valid_datetime\<close> is the range of the fields of a clock reading
  whose year has four digits.
\<close>

definition is_digit :: "char \<Rightarrow> bool" where
  "is_digit c \<longleftrightarrow> c \<in> set ''0123456789''"

definition digit_value :: "char \<Rightarrow> nat" where
  "digit_value c = of_char c - 48"

definition valid_datetime :: "datetime \<Rightarrow> bool" where
  "valid_datetime t \<longleftrightarrow>
     1000 \<le> year t \<and> year t \<le> 9999 \<and> 1 \<le> month t \<and> month t \<le> 12 \<and>
     1 \<le> day t \<and> day t \<le> 31 \<and> hour t < 24 \<and> minute t < 60 \<and> second t < 60"

definition read_nat :: "string \<Rightarrow> nat" where
  "read_nat s = foldl (\<lambda>a c. 10 * a + digit_value c) 0 s"

section \<open>Dictionaries\<close>

lemma missing_fields_Nil:
  "missing_fields sp = [] \<longleftrightarrow>
     map_of sp ''engine'' \<noteq> None \<and> map_of sp ''version'' \<noteq> None \<and> map_of sp ''storage'' \<noteq> None"
  by (auto simp: missing_fields_def required_fields_def)

lemma map_of_dict_update:
  "map_of (dict_update d other) = map_of d ++ map_of (rev other)"
  unfolding dict_update_def
  by (induction other arbitrary: d) (auto simp: update_conv' map_add_def fun_eq_iff split: option.splits)

lemma map_of_dict_update_distinct:
  "distinct (map fst other) \<Longrightarrow> map_of (dict_update d other) = map_of d ++ map_of other"
proof -
  assume d: "distinct (map fst other)"
  then have "distinct (map fst (rev other))"
    by (simp add: rev_map [symmetric])
  with d have "map_of (rev other) = map_of other"
    by (simp add: map_of_inject_set)
  then show ?thesis
    by (simp add: map_of_dict_update)
qed

lemma dict_update_keeps: "map_of d k \<noteq> None \<Longrightarrow> map_of (dict_update d other) k \<noteq> None"
  by (auto simp: map_of_dict_update map_add_def split: option.splits)

lemma missing_fields_dict_update:
  "missing_fields d = [] \<Longrightarrow> missing_fields (dict_update d other) = []"
  by (simp add: missing_fields_Nil dict_update_keeps)

lemma missing_fields_replicas:
  "missing_fields d = [] \<Longrightarrow> missing_fields (AList.update ''replicas'' v d) = []"
  by (simp add: missing_fields_Nil update_conv')

lemma list_all_update:
  "P (k, v) \<Longrightarrow> list_all P al \<Longrightarrow> list_all P (AList.update k v al)"
  by (induction al) auto

lemma list_all_delete: "list_all P al \<Longrightarrow> list_all P (AList.delete k al)"
  by (induction al) auto

lemma store_ok_lookup:
  "store_ok op \<Longrightarrow> map_of (databases op) k = Some db \<Longrightarrow> resource_ok k db"
  by (auto simp: store_ok_def list_all_iff dest: map_of_SomeD)

lemma store_ok_update:
  "store_ok op \<Longrightarrow> resource_ok k db \<Longrightarrow>
   store_ok (op\<lparr>databases := AList.update k db (databases op)\<rparr>)"
  by (simp add: store_ok_def distinct_update list_all_update)

lemma store_ok_history:
  "store_ok (op\<lparr>reconciliation_history := h\<rparr>) = store_ok op"
  by (simp add: store_ok_def)

section \<open>What each operation computes\<close>

lemma reconcile_absent:
  "map_of (databases op) n = None \<Longrightarrow> reconcile now n op = (None, op)"
  by (simp add: reconcile_def)

lemma reconcile_Pending:
  assumes "map_of (databases op) n = Some db" and "phase (status db) = ''Pending''"
    and "map_of (spec db) ''engine'' \<noteq> None" and "map_of (spec db) ''version'' \<noteq> None"
  shows "reconcile now n op =
    (None, op\<lparr>databases := AList.update n (snd (provision_database db)) (databases op),
               reconciliation_history := reconciliation_history op @
                 [reconciled now n ''Provisioning'']\<rparr>)"
  using assms
  by (simp add: reconcile_def dispatch_def in_place_def provision_database_def)

lemma reconcile_Provisioning:
  assumes "map_of (databases op) n = Some db" and "phase (status db) = ''Provisioning''"
    and "map_of (spec db) ''engine'' \<noteq> None"
  shows "reconcile now n op =
    (None, op\<lparr>databases := AList.update n (snd (check_provisioning_status db)) (databases op),
               reconciliation_history := reconciliation_history op @
                 [reconciled now n ''Running'']\<rparr>)"
  using assms
  by (auto simp: reconcile_def dispatch_def in_place_def check_provisioning_status_def Let_def)

lemma reconcile_Running:
  assumes "map_of (databases op) n = Some db" and "phase (status db) = ''Running''"
  shows "reconcile now n op =
    (None, op\<lparr>databases := AList.update n (monitor_health db) (databases op),
               reconciliation_history := reconciliation_history op @
                 [reconciled now n ''Running'']\<rparr>)"
  using assms
  by (simp add: reconcile_def dispatch_def in_place_def monitor_health_def)

lemma reconcile_Updating:
  assumes "map_of (databases op) n = Some db" and "phase (status db) = ''Updating''"
    and "map_of (spec db) ''version'' \<noteq> None"
  shows "reconcile now n op =
    (None, op\<lparr>databases := AList.update n (snd (apply_update db)) (databases op),
               reconciliation_history := reconciliation_history op @
                 [reconciled now n ''Running'']\<rparr>)"
  using assms
  by (simp add: reconcile_def dispatch_def in_place_def apply_update_def)

lemma reconcile_Deleting:
  assumes "map_of (databases op) n = Some db" and "phase (status db) = ''Deleting''"
    and "name db = n"
  shows "reconcile now n op =
    (None, op\<lparr>databases := AList.delete n (databases op),
               reconciliation_history := reconciliation_history op @
                 [reconciled now n ''Deleting'']\<rparr>)"
  using assms
  by (simp add: reconcile_def dispatch_def delete_database_impl_def)

lemma create_database_valid:
  assumes "missing_fields sp = []"
  shows "create_database t_new t_event n sp op =
    (Inr (snd (provision_database (DatabaseResource t_new n sp))),
     op\<lparr>databases :=
          AList.update n (snd (provision_database (DatabaseResource t_new n sp))) (databases op),
        reconciliation_history := reconciliation_history op @
          [reconciled t_event n ''Provisioning'']\<rparr>)"
proof -
  let ?db = "DatabaseResource t_new n sp"
  let ?op1 = "op\<lparr>databases := AList.update n ?db (databases op)\<rparr>"
  from assms have keys: "map_of (spec ?db) ''engine'' \<noteq> None" "map_of (spec ?db) ''version'' \<noteq> None"
    by (simp_all add: missing_fields_Nil DatabaseResource_def)
  have "map_of (databases ?op1) n = Some ?db"
    by (simp add: update_conv')
  moreover have "phase (status ?db) = ''Pending''"
    by (simp add: DatabaseResource_def)
  ultimately have "reconcile t_event n ?op1 =
    (None, ?op1\<lparr>databases := AList.update n (snd (provision_database ?db)) (databases ?op1),
               reconciliation_history := reconciliation_history ?op1 @
                 [reconciled t_event n ''Provisioning'']\<rparr>)"
    using keys by (rule reconcile_Pending)
  with assms show ?thesis
    by (simp add: create_database_def Let_def update_conv')
qed

lemma create_database_invalid:
  assumes "missing_fields sp \<noteq> []"
  shows "create_database t_new t_event n sp op =
    (Inl (ValueError (''Missing required field: '' @ hd (missing_fields sp))), op)"
  using assms by (cases "missing_fields sp") (simp_all add: create_database_def)

lemma update_database_changed:
  assumes "map_of (databases op) n = Some db" and "changes (spec db) new \<noteq> []"
    and "map_of (spec db) ''version'' \<noteq> None"
  shows "update_database now n new op =
    (None, op\<lparr>databases := AList.update n (snd (apply_update (mark_updating db new))) (databases op),
               reconciliation_history := reconciliation_history op @
                 [reconciled now n ''Running'']\<rparr>)"
proof -
  let ?db = "mark_updating db new"
  let ?op1 = "op\<lparr>databases := AList.update n ?db (databases op)\<rparr>"
  have "map_of (databases ?op1) n = Some ?db"
    by (simp add: update_conv')
  moreover have "phase (status ?db) = ''Updating''"
    by (simp add: mark_updating_def)
  moreover from assms(3) have "map_of (spec ?db) ''version'' \<noteq> None"
    by (simp add: mark_updating_def dict_update_keeps)
  ultimately have "reconcile now n ?op1 =
    (None, ?op1\<lparr>databases := AList.update n (snd (apply_update ?db)) (databases ?op1),
               reconciliation_history := reconciliation_history ?op1 @
                 [reconciled now n ''Running'']\<rparr>)"
    by (rule reconcile_Updating)
  with assms(1,2) show ?thesis
    by (simp add: update_database_def)
qed

lemma delete_database_present:
  assumes "map_of (databases op) n = Some db" and "name db = n"
  shows "delete_database now n op =
    (None, op\<lparr>databases := AList.delete n (databases op),
               reconciliation_history := reconciliation_history op @
                 [reconciled now n ''Deleting'']\<rparr>)"
proof -
  let ?db = "mark_deleting db"
  let ?op1 = "op\<lparr>databases := AList.update n ?db (databases op)\<rparr>"
  have "map_of (databases ?op1) n = Some ?db"
    by (simp add: update_conv')
  moreover have "phase (status ?db) = ''Deleting''"
    by (simp add: mark_deleting_def)
  moreover from assms(2) have "name ?db = n"
    by (simp add: mark_deleting_def)
  ultimately have "reconcile now n ?op1 =
    (None, ?op1\<lparr>databases := AList.delete n (databases ?op1),
               reconciliation_history := reconciliation_history ?op1 @
                 [reconciled now n ''Deleting'']\<rparr>)"
    by (rule reconcile_Deleting)
  with assms(1) show ?thesis
    by (simp add: delete_database_def delete_update_same)
qed

section \<open>Every call keeps the store well formed\<close>

lemma resource_ok_provisioned:
  "missing_fields sp = [] \<Longrightarrow> resource_ok n (snd (provision_database (DatabaseResource t n sp)))"
  by (simp add: resource_ok_def provision_database_def DatabaseResource_def missing_fields_Nil)

lemma resource_ok_checked:
  "resource_ok n db \<Longrightarrow> resource_ok n (snd (check_provisioning_status db))"
  by (auto simp: resource_ok_def check_provisioning_status_def Let_def missing_fields_Nil
      split: option.splits)

lemma resource_ok_monitored:
  "resource_ok n db \<Longrightarrow> phase (status db) = ''Running'' \<Longrightarrow> resource_ok n (monitor_health db)"
  by (simp add: resource_ok_def monitor_health_def)

lemma resource_ok_updated:
  assumes "resource_ok n db"
  shows "resource_ok n (snd (apply_update (mark_updating db new)))"
proof -
  from assms have m: "missing_fields (dict_update (spec db) new) = []"
    by (simp add: resource_ok_def missing_fields_dict_update)
  then have "map_of (dict_update (spec db) new) ''version'' \<noteq> None"
    by (simp add: missing_fields_Nil)
  with assms m show ?thesis
    by (simp add: resource_ok_def apply_update_def mark_updating_def)
qed

lemma resource_ok_scaled:
  "resource_ok n db \<Longrightarrow>
   resource_ok n (db\<lparr>spec := AList.update ''replicas'' v (spec db)\<rparr>)"
  by (simp add: resource_ok_def missing_fields_replicas)

lemma store_ok_reconcile:
  assumes ok: "store_ok op"
  shows "store_ok (snd (reconcile now n op))"
proof (cases "map_of (databases op) n")
  case None
  with ok show ?thesis by (simp add: reconcile_absent)
next
  case (Some db)
  with ok have r: "resource_ok n db" by (rule store_ok_lookup)
  then consider (running) "phase (status db) = ''Running''"
    | (provisioning) "phase (status db) = ''Provisioning''"
    by (auto simp: resource_ok_def)
  then show ?thesis
  proof cases
    case running
    from r running have "resource_ok n (monitor_health db)" by (rule resource_ok_monitored)
    with ok show ?thesis
      by (simp add: reconcile_Running [OF Some running] store_ok_update store_ok_history)
  next
    case provisioning
    from r have e: "map_of (spec db) ''engine'' \<noteq> None"
      by (simp add: resource_ok_def missing_fields_Nil)
    from r have "resource_ok n (snd (check_provisioning_status db))" by (rule resource_ok_checked)
    with ok show ?thesis
      by (simp add: reconcile_Provisioning [OF Some provisioning e] store_ok_update store_ok_history)
  qed
qed

lemma store_ok_create_database:
  assumes ok: "store_ok op"
  shows "store_ok (snd (create_database t_new t_event n sp op))"
proof (cases "missing_fields sp = []")
  case True
  then have "resource_ok n (snd (provision_database (DatabaseResource t_new n sp)))"
    by (rule resource_ok_provisioned)
  with ok show ?thesis
    by (simp add: create_database_valid [OF True] store_ok_update store_ok_history)
next
  case False
  with ok show ?thesis by (simp add: create_database_invalid)
qed

lemma store_ok_update_database:
  assumes ok: "store_ok op"
  shows "store_ok (snd (update_database now n new op))"
proof (cases "map_of (databases op) n")
  case None
  with ok show ?thesis by (simp add: update_database_def)
next
  case (Some db)
  with ok have r: "resource_ok n db" by (rule store_ok_lookup)
  show ?thesis
  proof (cases "changes (spec db) new = []")
    case True
    with ok Some show ?thesis by (simp add: update_database_def)
  next
    case False
    from r have v: "map_of (spec db) ''version'' \<noteq> None"
      by (simp add: resource_ok_def missing_fields_Nil)
    from r have "resource_ok n (snd (apply_update (mark_updating db new)))"
      by (rule resource_ok_updated)
    with ok show ?thesis
      by (simp add: update_database_changed [OF Some False v] store_ok_update store_ok_history)
  qed
qed

lemma store_ok_delete_database:
  assumes ok: "store_ok op"
  shows "store_ok (snd (delete_database now n op))"
proof (cases "map_of (databases op) n")
  case None
  with ok show ?thesis by (simp add: delete_database_def)
next
  case (Some db)
  with ok have "resource_ok n db" by (rule store_ok_lookup)
  then have nm: "name db = n" by (simp add: resource_ok_def)
  from ok show ?thesis
    by (simp add: delete_database_present [OF Some nm] store_ok_def distinct_delete
        list_all_delete)
qed

lemma store_ok_scale_database:
  assumes ok: "store_ok op"
  shows "store_ok (snd (scale_database n replicas op))"
proof (cases "map_of (databases op) n")
  case None
  with ok show ?thesis by (simp add: scale_database_def)
next
  case (Some db)
  with ok have "resource_ok n db" by (rule store_ok_lookup)
  then have "resource_ok n (db\<lparr>spec := AList.update ''replicas'' (VInt replicas) (spec db)\<rparr>)"
    by (rule resource_ok_scaled)
  with ok Some show ?thesis
    by (simp add: scale_database_def store_ok_update)
qed

lemma store_ok_backup_database: "store_ok op \<Longrightarrow> store_ok (snd (backup_database now n op))"
  by (simp add: backup_database_def split: option.splits)

lemma store_ok_step: "store_ok op \<Longrightarrow> store_ok (step c op)"
  by (cases c)
    (simp_all add: store_ok_create_database store_ok_reconcile store_ok_update_database
      store_ok_delete_database store_ok_scale_database store_ok_backup_database)

lemma store_ok_fold: "store_ok op \<Longrightarrow> store_ok (fold step cs op)"
  by (induction cs arbitrary: op) (simp_all add: store_ok_step)

lemma store_ok_run: "store_ok (run cs)"
  unfolding run_def by (rule store_ok_fold) (simp add: store_ok_def init_operator_def)

section \<open>The scenario, evaluated\<close>

lemma prod_created_eq:
  "prod_created =
     \<lparr>databases = [(''prod-db'', prod_provisioning)],
      reconciliation_history = [reconciled fixed_clock ''prod-db'' ''Provisioning'']\<rparr>"
  by code_simp

lemma prod_ready_eq:
  "prod_ready =
     \<lparr>databases = [(''prod-db'', prod_running)],
      reconciliation_history =
        [reconciled fixed_clock ''prod-db'' ''Provisioning'',
         reconciled fixed_clock ''prod-db'' ''Running'']\<rparr>"
  by code_simp

lemma provisioned_fields:
  assumes "missing_fields sp = []"
  shows "snd (provision_database (DatabaseResource t n sp)) =
     \<lparr>name = n, spec = sp,
      status = \<lparr>phase = ''Provisioning'', ready = False,
                message = ''Database provisioning in progress'',
                connection_string = None, health = None\<rparr>,
      metadata = \<lparr>created_at = t, generation = 1\<rparr>\<rparr>"
  using assms by (simp add: provision_database_def DatabaseResource_def missing_fields_Nil)

section \<open>Status views\<close>

lemma get_database_status_present:
  assumes "store_ok op" and "k \<in> set (map fst (databases op))"
  shows "\<exists>v. get_database_status k op = Inr (StatusView v) \<and> view_name v = k"
proof -
  from assms(2) obtain db where l: "map_of (databases op) k = Some db"
    by (cases "map_of (databases op) k") (auto simp: map_of_eq_None_iff)
  with assms(1) have "resource_ok k db" by (rule store_ok_lookup)
  then have "map_of (spec db) ''engine'' \<noteq> None" "map_of (spec db) ''version'' \<noteq> None"
    by (simp_all add: resource_ok_def missing_fields_Nil)
  with l show ?thesis
    by (auto simp: get_database_status_def)
qed

lemma get_database_status_absent:
  "map_of (databases op) n = None \<Longrightarrow>
   get_database_status n op = Inr (ErrorDict ''Database not found'')"
  by (simp add: get_database_status_def)

lemma collect_views:
  assumes "\<forall>k \<in> set ks. \<exists>v. f k = Inr (StatusView v) \<and> view_name v = k"
  shows "\<exists>vs. collect (map f ks) = Inr (map StatusView vs) \<and> map view_name vs = ks"
  using assms
proof (induction ks)
  case Nil
  then show ?case by simp
next
  case (Cons k ks)
  then obtain v where v: "f k = Inr (StatusView v)" "view_name v = k"
    by auto
  from Cons obtain vs where vs: "collect (map f ks) = Inr (map StatusView vs)" "map view_name vs = ks"
    by auto
  from v vs have "collect (map f (k # ks)) = Inr (map StatusView (v # vs)) \<and>
      map view_name (v # vs) = k # ks"
    by simp
  then show ?case by (rule exI [of _ "v # vs"])
qed

lemma list_databases_names:
  assumes "store_ok op"
  shows "\<exists>vs. list_databases op = Inr (map StatusView vs) \<and>
           map view_name vs = map fst (databases op)"
  unfolding list_databases_def
  by (rule collect_views) (simp add: get_database_status_present [OF assms])

lemma changes_Nil: "changes cur new = [] \<longleftrightarrow> (\<forall>(k, v) \<in> set new. dict_get cur k = v)"
  by (auto simp: changes_def filter_empty_conv)

section \<open>Timestamps\<close>

lemma below_ten:
  "(d::nat) < 10 \<Longrightarrow>
   d = 0 \<or> d = 1 \<or> d = 2 \<or> d = 3 \<or> d = 4 \<or> d = 5 \<or> d = 6 \<or> d = 7 \<or> d = 8 \<or> d = 9"
  by (simp add: less_Suc_eq eval_nat_numeral)

lemma digit_char_cases:
  assumes "d < 10"
  shows "digit_value (digit_char d) = d \<and> is_digit (digit_char d)"
  using below_ten [OF assms]
  by (elim disjE) (simp_all add: digit_char_def digit_value_def is_digit_def)

lemma digit_char_mod: "digit_char d = digit_char (d mod 10)"
  by (simp add: digit_char_def)

lemma digit_value_digit_char: "digit_value (digit_char d) = d mod 10"
  using digit_char_cases [of "d mod 10"] digit_char_mod [of d] by simp

lemma is_digit_digit_char: "is_digit (digit_char d)"
  using digit_char_cases [of "d mod 10"] digit_char_mod [of d] by simp

lemma two_digits: "(n::nat) < 100 \<Longrightarrow> 10 * (n div 10 mod 10) + n mod 10 = n"
  by simp

lemma four_digits:
  assumes "(n::nat) < 10000"
  shows "10 * (10 * (10 * (n div 1000 mod 10) + n div 100 mod 10) + n div 10 mod 10) + n mod 10 = n"
proof -
  from assms have a: "n div 1000 mod 10 = n div 1000"
    by simp
  have b: "10 * (n div 1000) + n div 100 mod 10 = n div 100"
    using div_mult_mod_eq [of "n div 100" 10] by (simp add: div_mult2_eq [symmetric])
  have c: "10 * (n div 100) + n div 10 mod 10 = n div 10"
    using div_mult_mod_eq [of "n div 10" 10] by (simp add: div_mult2_eq [symmetric])
  show ?thesis
    by (simp only: a b c) simp
qed

lemma read_nat_pad2: "n < 100 \<Longrightarrow> read_nat (pad2 n) = n"
  by (simp add: read_nat_def pad2_def digit_value_digit_char two_digits)

lemma four_digits_flat:
  assumes "(n::nat) < 10000"
  shows "1000 * (n div 1000) + 100 * (n div 100 mod 10) + 10 * (n div 10 mod 10) + n mod 10 = n"
  using four_digits [OF assms] assms by simp

lemma read_nat_pad4: "n < 10000 \<Longrightarrow> read_nat (pad4 n) = n"
  by (simp add: read_nat_def pad4_def digit_value_digit_char four_digits_flat)

lemma length_pad: "length (pad2 n) = 2" "length (pad4 n) = 4"
  by (simp_all add: pad2_def pad4_def)

lemma digits_pad: "list_all is_digit (pad2 n)" "list_all is_digit (pad4 n)"
  by (simp_all add: pad2_def pad4_def is_digit_digit_char)

lemma strftime_fields:
  "take 4 (strftime t) = pad4 (year t)"
  "take 2 (drop 4 (strftime t)) = pad2 (month t)"
  "take 2 (drop 6 (strftime t)) = pad2 (day t)"
  "strftime t ! 8 = CHR ''-''"
  "take 2 (drop 9 (strftime t)) = pad2 (hour t)"
  "take 2 (drop 11 (strftime t)) = pad2 (minute t)"
  "drop 13 (strftime t) = pad2 (second t)"
  "length (strftime t) = 15"
  by (simp_all add: strftime_def pad2_def pad4_def)

lemma strftime_fixed_clock: "strftime fixed_clock = ''20240101-120000''"
  by code_simp

section \<open>The claims\<close>

text \<open>
  C8. For every name and every spec that lacks at least one of the keys \<^verbatim>\<open>engine\<close>,
  \<^verbatim>\<open>version\<close>, \<^verbatim>\<open>storage\<close>, \<^verbatim>\<open>create_database\<close> raises the validation error
  (\<^verbatim>\<open>ValueError\<close>, naming the first required field that is missing) and the operator is
  left as it was: nothing is inserted, no resource is touched, no event is recorded.
\<close>

theorem create_database_missing_field:
  assumes "map_of sp ''engine'' = None \<or> map_of sp ''version'' = None \<or> map_of sp ''storage'' = None"
  shows "create_database t_new t_event n sp op =
           (Inl (ValueError (''Missing required field: '' @ hd (missing_fields sp))), op) \<and>
         hd (missing_fields sp) \<in> set required_fields \<and>
         map_of sp (hd (missing_fields sp)) = None"
proof -
  from assms have ne: "missing_fields sp \<noteq> []"
    by (auto simp: missing_fields_Nil)
  then have "hd (missing_fields sp) \<in> set (missing_fields sp)"
    by simp
  then have "hd (missing_fields sp) \<in> set required_fields \<and> map_of sp (hd (missing_fields sp)) = None"
    unfolding missing_fields_def by simp
  with ne show ?thesis
    by (simp add: create_database_invalid)
qed

theorem create_database_missing_field_witness:
  "map_of [(''engine'', VStr ''redis''), (''storage'', VStr ''10Gi'')] ''version'' = None \<and>
   create_database fixed_clock fixed_clock ''cache-redis''
       [(''engine'', VStr ''redis''), (''storage'', VStr ''10Gi'')] prod_ready =
     (Inl (ValueError ''Missing required field: version''), prod_ready)"
proof -
  have h: "map_of [(''engine'', VStr ''redis''), (''storage'', VStr ''10Gi'')] ''engine'' = None \<or>
           map_of [(''engine'', VStr ''redis''), (''storage'', VStr ''10Gi'')] ''version'' = None \<or>
           map_of [(''engine'', VStr ''redis''), (''storage'', VStr ''10Gi'')] ''storage'' = None"
    by simp
  have "hd (missing_fields [(''engine'', VStr ''redis''), (''storage'', VStr ''10Gi'')]) = ''version''"
    by (simp add: missing_fields_def required_fields_def)
  with create_database_missing_field [OF h, of fixed_clock fixed_clock "''cache-redis''" prod_ready]
  show ?thesis by simp
qed

text \<open>
  C4. For every name that is not in the store, \<^verbatim>\<open>reconcile\<close> does no work: the store and
  the event log are left as they were. The source logs an error and returns; it raises
  nothing, and the value it returns (\<^verbatim>\<open>None\<close>) is the one it returns for a known name.
\<close>

theorem reconcile_unknown_name:
  assumes "map_of (databases op) n = None"
  shows "reconcile now n op = (None, op)"
  using assms by (rule reconcile_absent)

theorem reconcile_unknown_name_witness:
  "map_of (databases prod_ready) ''ghost'' = None \<and>
   reconcile fixed_clock ''ghost'' prod_ready = (None, prod_ready)"
proof -
  have h: "map_of (databases prod_ready) ''ghost'' = None"
    by (simp add: prod_ready_eq)
  with reconcile_unknown_name [OF h] show ?thesis by simp
qed

text \<open>C4 as the specification words it has \<^verbatim>\<open>reconcile\<close> fail with a not-found error.
  On an unknown name the call ends without any error.\<close>

theorem reconcile_unknown_name_no_error:
  "map_of (databases prod_ready) ''ghost'' = None \<and>
   fst (reconcile fixed_clock ''ghost'' prod_ready) = None"
  by (simp add: prod_ready_eq reconcile_def)

text \<open>
  C3. For every spec with the keys \<^verbatim>\<open>engine\<close>, \<^verbatim>\<open>version\<close> and \<^verbatim>\<open>storage\<close> and
  every name that is not in the store, \<^verbatim>\<open>create_database\<close> succeeds, stores a resource
  under the name and returns it; when the call returns, the resource has generation 1 and
  phase \<^verbatim>\<open>Provisioning\<close>: the constructor's phase \<^verbatim>\<open>Pending\<close> is advanced by the
  reconcile that the creation triggers before it returns.
\<close>

theorem create_database_returns:
  assumes "map_of sp ''engine'' \<noteq> None" and "map_of sp ''version'' \<noteq> None"
    and "map_of sp ''storage'' \<noteq> None" and "map_of (databases op) n = None"
  shows "\<exists>db op'. create_database t_new t_event n sp op = (Inr db, op') \<and>
           map_of (databases op') n = Some db \<and>
           name db = n \<and> spec db = sp \<and>
           phase (status db) = ''Provisioning'' \<and> generation (metadata db) = 1"
proof -
  from assms(1-3) have v: "missing_fields sp = []"
    by (simp add: missing_fields_Nil)
  show ?thesis
    by (simp add: create_database_valid [OF v] provisioned_fields [OF v] update_conv')
qed

theorem create_database_returns_witness:
  "map_of prod_spec ''engine'' \<noteq> None \<and> map_of prod_spec ''version'' \<noteq> None \<and>
   map_of prod_spec ''storage'' \<noteq> None \<and> map_of (databases init_operator) ''prod-db'' = None \<and>
   (\<exists>db op'. create_database fixed_clock fixed_clock ''prod-db'' prod_spec init_operator = (Inr db, op') \<and>
      map_of (databases op') ''prod-db'' = Some db \<and>
      phase (status db) = ''Provisioning'' \<and> generation (metadata db) = 1)"
proof -
  have h: "map_of prod_spec ''engine'' \<noteq> None" "map_of prod_spec ''version'' \<noteq> None"
    "map_of prod_spec ''storage'' \<noteq> None" "map_of (databases init_operator) ''prod-db'' = None"
    by (simp_all add: prod_spec_def init_operator_def)
  from create_database_returns [OF h, of fixed_clock fixed_clock] h
  show ?thesis by blast
qed

text \<open>C3 as the specification words it has the returned resource in phase
  \<^verbatim>\<open>Pending\<close>. The resource that the creation of the scenario returns is provisioning.\<close>

theorem create_database_not_pending:
  "map_of (databases init_operator) ''prod-db'' = None \<and>
   create_database fixed_clock fixed_clock ''prod-db'' prod_spec init_operator =
     (Inr prod_provisioning, prod_created) \<and>
   phase (status prod_provisioning) = ''Provisioning'' \<and>
   phase (status prod_provisioning) \<noteq> ''Pending''"
  by code_simp

text \<open>
  C2. For every store that already has the name: \<^verbatim>\<open>create_database\<close> with a spec that
  has the three required keys does not fail; it builds a new resource (generation 1, not
  ready, provisioning when the call returns), puts it under the name in place of the existing
  one and returns it, and leaves every other name as it was. With a spec that lacks a required
  key it raises and leaves the operator, the existing resource included, as it was.
\<close>

theorem create_database_existing:
  assumes "map_of (databases op) n = Some old"
  shows "(map_of sp ''engine'' \<noteq> None \<and> map_of sp ''version'' \<noteq> None \<and>
          map_of sp ''storage'' \<noteq> None \<longrightarrow>
            (\<exists>db op'. create_database t_new t_event n sp op = (Inr db, op') \<and>
               map_of (databases op') n = Some db \<and>
               name db = n \<and> spec db = sp \<and> created_at (metadata db) = t_new \<and>
               generation (metadata db) = 1 \<and> phase (status db) = ''Provisioning'' \<and>
               \<not> ready (status db) \<and>
               (\<forall>k. k \<noteq> n \<longrightarrow> map_of (databases op') k = map_of (databases op) k))) \<and>
         (map_of sp ''engine'' = None \<or> map_of sp ''version'' = None \<or>
          map_of sp ''storage'' = None \<longrightarrow>
            (\<exists>e. create_database t_new t_event n sp op = (Inl e, op)))"
proof (cases "missing_fields sp = []")
  case True
  then show ?thesis
    by (simp add: create_database_valid [OF True] provisioned_fields [OF True] update_conv'
        missing_fields_Nil)
next
  case False
  then show ?thesis
    by (auto simp: create_database_invalid missing_fields_Nil)
qed

theorem create_database_existing_witness:
  "map_of (databases prod_ready) ''prod-db'' = Some prod_running \<and>
   (\<exists>db op'. create_database fixed_clock fixed_clock ''prod-db'' prod_spec prod_ready = (Inr db, op') \<and>
      map_of (databases op') ''prod-db'' = Some db \<and> phase (status db) = ''Provisioning'' \<and>
      \<not> ready (status db))"
proof -
  have h: "map_of (databases prod_ready) ''prod-db'' = Some prod_running"
    by (simp add: prod_ready_eq)
  have "map_of prod_spec ''engine'' \<noteq> None \<and> map_of prod_spec ''version'' \<noteq> None \<and>
        map_of prod_spec ''storage'' \<noteq> None"
    by (simp add: prod_spec_def)
  with create_database_existing [OF h, of prod_spec fixed_clock fixed_clock] h
  show ?thesis by blast
qed

text \<open>C2 as the specification words it has the creation fail on a name that is present
  and leave the existing resource unchanged. Creating the running resource of the scenario
  again succeeds and replaces it by a provisioning one.\<close>

theorem create_database_overwrites:
  "map_of (databases prod_ready) ''prod-db'' = Some prod_running \<and>
   fst (create_database fixed_clock fixed_clock ''prod-db'' prod_spec prod_ready) =
     Inr prod_provisioning \<and>
   map_of (databases (snd (create_database fixed_clock fixed_clock ''prod-db'' prod_spec prod_ready)))
     ''prod-db'' = Some prod_provisioning \<and>
   prod_provisioning \<noteq> prod_running"
  by code_simp

text \<open>
  C6. From the empty operator, after the creation of \<^verbatim>\<open>prod-db\<close> with engine
  \<^verbatim>\<open>postgresql\<close>, version \<^verbatim>\<open>14.9\<close> and storage \<^verbatim>\<open>100Gi\<close> the resource is in phase
  \<^verbatim>\<open>Provisioning\<close>; after one reconcile it is in phase \<^verbatim>\<open>Running\<close>, ready, with the
  connection string \<^verbatim>\<open>postgresql://localhost:5432/prod-db\<close>; a second reconcile keeps the
  phase, the readiness and the connection string (it adds the health entry).
\<close>

theorem scenario_phases:
  "databases (run [CreateDatabase fixed_clock fixed_clock ''prod-db'' prod_spec]) =
     [(''prod-db'', prod_provisioning)] \<and>
   databases (run [CreateDatabase fixed_clock fixed_clock ''prod-db'' prod_spec,
                   Reconcile fixed_clock ''prod-db'']) =
     [(''prod-db'', prod_running)] \<and>
   databases (run [CreateDatabase fixed_clock fixed_clock ''prod-db'' prod_spec,
                   Reconcile fixed_clock ''prod-db'', Reconcile fixed_clock ''prod-db'']) =
     [(''prod-db'', monitor_health prod_running)] \<and>
   phase (status prod_provisioning) = ''Provisioning'' \<and>
   phase (status prod_running) = ''Running'' \<and> ready (status prod_running) \<and>
   connection_string (status prod_running) = Some ''postgresql://localhost:5432/prod-db'' \<and>
   phase (status (monitor_health prod_running)) = ''Running'' \<and>
   ready (status (monitor_health prod_running)) \<and>
   connection_string (status (monitor_health prod_running)) =
     Some ''postgresql://localhost:5432/prod-db''"
  by code_simp

text \<open>C6 as the specification words it has phase \<^verbatim>\<open>Pending\<close> after the creation and
  \<^verbatim>\<open>Provisioning\<close> after one reconcile. The creation already runs the first reconcile, so
  each phase of the scenario is reached one call earlier.\<close>

theorem scenario_not_pending:
  "databases (run [CreateDatabase fixed_clock fixed_clock ''prod-db'' prod_spec]) =
     [(''prod-db'', prod_provisioning)] \<and>
   phase (status prod_provisioning) \<noteq> ''Pending'' \<and>
   databases (run [CreateDatabase fixed_clock fixed_clock ''prod-db'' prod_spec,
                   Reconcile fixed_clock ''prod-db'']) =
     [(''prod-db'', prod_running)] \<and>
   phase (status prod_running) \<noteq> ''Provisioning''"
  by code_simp

text \<open>
  C1. In every state that a sequence of calls of the operations (create, reconcile, update,
  delete, scale, backup) leaves behind, every resource of the store that is ready is in
  phase \<^verbatim>\<open>Running\<close>, and a resource in any other phase is not ready; between two calls
  a resource is in phase \<^verbatim>\<open>Running\<close> or \<^verbatim>\<open>Provisioning\<close> only. This is about the
  states in which a call has returned, not about the state inside \<^verbatim>\<open>update_database\<close>.
\<close>

theorem ready_only_when_running:
  "\<forall>(k, db) \<in> set (databases (run cs)).
     (ready (status db) \<longrightarrow> phase (status db) = ''Running'') \<and>
     (phase (status db) \<noteq> ''Running'' \<longrightarrow> \<not> ready (status db)) \<and>
     (phase (status db) = ''Running'' \<or> phase (status db) = ''Provisioning'')"
  using store_ok_run [of cs]
  by (auto simp: store_ok_def list_all_iff resource_ok_def)

theorem ready_only_when_running_witness:
  "(''prod-db'', prod_running) \<in>
     set (databases (run [CreateDatabase fixed_clock fixed_clock ''prod-db'' prod_spec,
                          Reconcile fixed_clock ''prod-db''])) \<and>
   ready (status prod_running) \<and> phase (status prod_running) = ''Running''"
proof -
  have m: "(''prod-db'', prod_running) \<in>
     set (databases (run [CreateDatabase fixed_clock fixed_clock ''prod-db'' prod_spec,
                          Reconcile fixed_clock ''prod-db'']))"
    using prod_ready_eq by (simp add: prod_ready_def)
  have r: "ready (status prod_running)"
    by (simp add: prod_running_def)
  from bspec [OF ready_only_when_running m] m r
  show ?thesis by simp
qed

text \<open>C1 as the specification words it has \<^verbatim>\<open>ready\<close> false while a resource is in phase
  \<^verbatim>\<open>Updating\<close> after an accepted update. No handler ever resets \<^verbatim>\<open>ready\<close>: when the
  running resource of the scenario is updated, \<^verbatim>\<open>update_database\<close> calls
  \<^verbatim>\<open>reconcile\<close> on an operator whose resource is in phase \<^verbatim>\<open>Updating\<close> and ready.\<close>

theorem ready_while_updating:
  "map_of (databases prod_ready) ''prod-db'' = Some prod_running \<and>
   update_database fixed_clock ''prod-db'' [(''version'', VStr ''15.0'')] prod_ready =
     reconcile fixed_clock ''prod-db'' prod_updating \<and>
   map_of (databases prod_updating) ''prod-db'' =
     Some (mark_updating prod_running [(''version'', VStr ''15.0'')]) \<and>
   ready (status (mark_updating prod_running [(''version'', VStr ''15.0'')])) \<and>
   phase (status (mark_updating prod_running [(''version'', VStr ''15.0'')])) = ''Updating''"
  by code_simp

text \<open>
  C10. In every state that a sequence of calls of the operations leaves behind, the spec of
  every resource of the store has the keys \<^verbatim>\<open>engine\<close>, \<^verbatim>\<open>version\<close> and
  \<^verbatim>\<open>storage\<close>, and \<^verbatim>\<open>get_database_status\<close> raises no \<^verbatim>\<open>KeyError\<close>, for any name.
\<close>

theorem required_fields_kept:
  "(\<forall>(k, db) \<in> set (databases (run cs)).
      map_of (spec db) ''engine'' \<noteq> None \<and> map_of (spec db) ''version'' \<noteq> None \<and>
      map_of (spec db) ''storage'' \<noteq> None) \<and>
   (\<forall>n e. get_database_status n (run cs) \<noteq> Inl e)"
proof
  show "\<forall>(k, db) \<in> set (databases (run cs)).
      map_of (spec db) ''engine'' \<noteq> None \<and> map_of (spec db) ''version'' \<noteq> None \<and>
      map_of (spec db) ''storage'' \<noteq> None"
    using store_ok_run [of cs]
    by (auto simp: store_ok_def list_all_iff resource_ok_def missing_fields_Nil)
  show "\<forall>n e. get_database_status n (run cs) \<noteq> Inl e"
  proof (intro allI)
    fix n e
    show "get_database_status n (run cs) \<noteq> Inl e"
    proof (cases "map_of (databases (run cs)) n")
      case None
      then show ?thesis by (simp add: get_database_status_absent)
    next
      case (Some db)
      then have "n \<in> set (map fst (databases (run cs)))"
        by (auto dest: map_of_SomeD intro: rev_image_eqI)
      with store_ok_run [of cs] obtain v where "get_database_status n (run cs) = Inr (StatusView v)"
        by (blast dest: get_database_status_present)
      then show ?thesis by simp
    qed
  qed
qed

theorem required_fields_kept_witness:
  "(''prod-db'', prod_running) \<in>
     set (databases (run [CreateDatabase fixed_clock fixed_clock ''prod-db'' prod_spec,
                          Reconcile fixed_clock ''prod-db''])) \<and>
   map_of (spec prod_running) ''engine'' \<noteq> None \<and>
   map_of (spec prod_running) ''version'' \<noteq> None \<and>
   map_of (spec prod_running) ''storage'' \<noteq> None \<and>
   get_database_status ''prod-db''
     (run [CreateDatabase fixed_clock fixed_clock ''prod-db'' prod_spec,
           Reconcile fixed_clock ''prod-db'']) \<noteq> Inl (KeyError ''engine'')"
proof -
  have m: "(''prod-db'', prod_running) \<in>
     set (databases (run [CreateDatabase fixed_clock fixed_clock ''prod-db'' prod_spec,
                          Reconcile fixed_clock ''prod-db'']))"
    using prod_ready_eq by (simp add: prod_ready_def)
  from required_fields_kept
  have a: "\<forall>(k, db) \<in> set (databases (run [CreateDatabase fixed_clock fixed_clock ''prod-db'' prod_spec,
                          Reconcile fixed_clock ''prod-db''])).
      map_of (spec db) ''engine'' \<noteq> None \<and> map_of (spec db) ''version'' \<noteq> None \<and>
      map_of (spec db) ''storage'' \<noteq> None"
    and b: "get_database_status ''prod-db''
     (run [CreateDatabase fixed_clock fixed_clock ''prod-db'' prod_spec,
           Reconcile fixed_clock ''prod-db'']) \<noteq> Inl (KeyError ''engine'')"
    by simp_all
  from bspec [OF a m] b m show ?thesis by simp
qed

text \<open>
  C5. For every resource in the store (whose spec has the \<^verbatim>\<open>version\<close> that the update
  handler reads, as every spec between two calls has) and every new spec (a dict, so its keys
  are distinct): an item of the new spec counts as a change when its value is not equal to
  \<^verbatim>\<open>spec.get(key)\<close>, which is \<^verbatim>\<open>None\<close> for a key that the current spec does not have.
  When at least one item is a change, \<^verbatim>\<open>update_database\<close> merges the new spec into the
  spec, increments the generation by exactly 1, sets the phase to \<^verbatim>\<open>Updating\<close> and calls
  \<^verbatim>\<open>reconcile\<close> on that state; the call raises nothing, and when it returns the resource
  has the merged spec, the generation incremented by 1 and, the update handler having run,
  the phase \<^verbatim>\<open>Running\<close>. When no item is a change, the operator is left as it was; this
  includes a new spec that brings a key the current spec does not have, with the value
  \<^verbatim>\<open>None\<close>.
\<close>

theorem update_database_generation:
  assumes "map_of (databases op) n = Some db" and "map_of (spec db) ''version'' \<noteq> None"
    and "distinct (map fst new)"
  shows "((\<exists>(k, v) \<in> set new. dict_get (spec db) k \<noteq> v) \<longrightarrow>
            update_database now n new op =
              reconcile now n
                (op\<lparr>databases := AList.update n (mark_updating db new) (databases op)\<rparr>) \<and>
            phase (status (mark_updating db new)) = ''Updating'' \<and>
            fst (update_database now n new op) = None \<and>
            (\<exists>db'. map_of (databases (snd (update_database now n new op))) n = Some db' \<and>
               generation (metadata db') = generation (metadata db) + 1 \<and>
               generation (metadata db') = generation (metadata (mark_updating db new)) \<and>
               spec db' = spec (mark_updating db new) \<and>
               map_of (spec db') = map_of (spec db) ++ map_of new \<and>
               phase (status db') = ''Running'')) \<and>
         ((\<forall>(k, v) \<in> set new. dict_get (spec db) k = v) \<longrightarrow>
            update_database now n new op = (None, op))"
proof (cases "changes (spec db) new = []")
  case True
  with assms(1) have "update_database now n new op = (None, op)"
    by (simp add: update_database_def)
  moreover from True have "\<not> (\<exists>(k, v) \<in> set new. dict_get (spec db) k \<noteq> v)"
    by (auto simp: changes_Nil)
  ultimately show ?thesis by simp
next
  case False
  then have ne: "\<not> (\<forall>(k, v) \<in> set new. dict_get (spec db) k = v)"
    by (simp add: changes_Nil)
  from assms(2) have v: "map_of (dict_update (spec db) new) ''version'' \<noteq> None"
    by (rule dict_update_keeps)
  have call: "update_database now n new op =
      reconcile now n (op\<lparr>databases := AList.update n (mark_updating db new) (databases op)\<rparr>)"
    using assms(1) False by (simp add: update_database_def)
  have res: "update_database now n new op =
    (None, op\<lparr>databases := AList.update n (snd (apply_update (mark_updating db new))) (databases op),
               reconciliation_history := reconciliation_history op @
                 [reconciled now n ''Running'']\<rparr>)"
    using assms(1) False assms(2) by (rule update_database_changed)
  have fin: "generation (metadata (snd (apply_update (mark_updating db new)))) =
        generation (metadata db) + 1"
      "spec (snd (apply_update (mark_updating db new))) = dict_update (spec db) new"
      "phase (status (snd (apply_update (mark_updating db new)))) = ''Running''"
    using v by (simp_all add: apply_update_def mark_updating_def)
  have mid: "phase (status (mark_updating db new)) = ''Updating''"
      "generation (metadata (mark_updating db new)) = generation (metadata db) + 1"
      "spec (mark_updating db new) = dict_update (spec db) new"
    by (simp_all add: mark_updating_def)
  have merge: "map_of (dict_update (spec db) new) = map_of (spec db) ++ map_of new"
    using assms(3) by (rule map_of_dict_update_distinct)
  have "\<exists>db'. map_of (databases (snd (update_database now n new op))) n = Some db' \<and>
               generation (metadata db') = generation (metadata db) + 1 \<and>
               generation (metadata db') = generation (metadata (mark_updating db new)) \<and>
               spec db' = spec (mark_updating db new) \<and>
               map_of (spec db') = map_of (spec db) ++ map_of new \<and>
               phase (status db') = ''Running''"
    by (simp add: res update_conv' fin mid merge)
  moreover have "fst (update_database now n new op) = None"
    by (simp add: res)
  ultimately show ?thesis
    using ne call mid(1) by blast
qed

theorem update_database_generation_witness:
  "map_of (databases prod_ready) ''prod-db'' = Some prod_running \<and>
   map_of (spec prod_running) ''version'' \<noteq> None \<and>
   distinct (map fst [(''version'', VStr ''15.0'')]) \<and>
   dict_get (spec prod_running) ''version'' \<noteq> VStr ''15.0'' \<and>
   (\<exists>db'. map_of (databases (snd (update_database fixed_clock ''prod-db''
               [(''version'', VStr ''15.0'')] prod_ready))) ''prod-db'' = Some db' \<and>
      generation (metadata db') = 2 \<and> phase (status db') = ''Running'') \<and>
   dict_get (spec prod_running) ''version'' = VStr ''14.9'' \<and>
   update_database fixed_clock ''prod-db'' [(''version'', VStr ''14.9'')] prod_ready =
     (None, prod_ready)"
proof -
  have h: "map_of (databases prod_ready) ''prod-db'' = Some prod_running"
    "map_of (spec prod_running) ''version'' \<noteq> None"
    by (simp_all add: prod_ready_eq prod_running_def prod_spec_def)
  have d: "distinct (map fst [(''version'', VStr ''15.0'')])"
    "distinct (map fst [(''version'', VStr ''14.9'')])"
    by simp_all
  have c: "\<exists>(k, v) \<in> set [(''version'', VStr ''15.0'')]. dict_get (spec prod_running) k \<noteq> v"
    "\<forall>(k, v) \<in> set [(''version'', VStr ''14.9'')]. dict_get (spec prod_running) k = v"
    by (simp_all add: dict_get_def prod_running_def prod_spec_def)
  have g: "generation (metadata prod_running) = 1"
    by (simp add: prod_running_def)
  from update_database_generation [OF h d(1), of fixed_clock] c(1) g
  have "\<exists>db'. map_of (databases (snd (update_database fixed_clock ''prod-db''
               [(''version'', VStr ''15.0'')] prod_ready))) ''prod-db'' = Some db' \<and>
      generation (metadata db') = 2 \<and> phase (status db') = ''Running''"
    by auto
  moreover from update_database_generation [OF h d(2), of fixed_clock] c(2)
  have "update_database fixed_clock ''prod-db'' [(''version'', VStr ''14.9'')] prod_ready =
     (None, prod_ready)"
    by blast
  moreover have "dict_get (spec prod_running) ''version'' \<noteq> VStr ''15.0''"
    "dict_get (spec prod_running) ''version'' = VStr ''14.9''"
    by (simp_all add: dict_get_def prod_running_def prod_spec_def)
  ultimately show ?thesis using h d by blast
qed

text \<open>C5 as the specification words it has the update accepted as soon as a key of the new
  spec differs from the current spec. The key \<^verbatim>\<open>tier\<close> is not in the spec of the running
  resource of the scenario, and merging \<^verbatim>\<open>{'tier': None}\<close> would add it; but
  \<^verbatim>\<open>spec.get('tier')\<close> is \<^verbatim>\<open>None\<close> too, so the update is taken for no change:
  spec, generation and phase stay as they were.\<close>

theorem update_database_new_key_ignored:
  "map_of (databases prod_ready) ''prod-db'' = Some prod_running \<and>
   map_of (spec prod_running) ''tier'' = None \<and>
   map_of [(''tier'', VNone)] ''tier'' = Some VNone \<and>
   map_of (dict_update (spec prod_running) [(''tier'', VNone)]) ''tier'' = Some VNone \<and>
   dict_update (spec prod_running) [(''tier'', VNone)] \<noteq> spec prod_running \<and>
   update_database fixed_clock ''prod-db'' [(''tier'', VNone)] prod_ready = (None, prod_ready)"
  by code_simp

text \<open>
  C7. For every resource in a well-formed store (every store between two calls is one),
  \<^verbatim>\<open>delete_database\<close> returns without an exception; after it, \<^verbatim>\<open>list_databases\<close>
  returns one view for each key of the store, none of them for the deleted name, and
  \<^verbatim>\<open>get_database_status\<close> on the name returns the not-found answer
  \<^verbatim>\<open>{'error': 'Database not found'}\<close>.
\<close>

theorem delete_database_removes:
  assumes "store_ok op" and "map_of (databases op) n = Some db"
  shows "\<exists>op' vs. delete_database now n op = (None, op') \<and>
           list_databases op' = Inr (map StatusView vs) \<and>
           map view_name vs = map fst (databases op') \<and>
           n \<notin> set (map view_name vs) \<and>
           get_database_status n op' = Inr (ErrorDict ''Database not found'')"
proof -
  let ?op' = "op\<lparr>databases := AList.delete n (databases op),
               reconciliation_history := reconciliation_history op @
                 [reconciled now n ''Deleting'']\<rparr>"
  from assms have "resource_ok n db" by (rule store_ok_lookup)
  then have "name db = n" by (simp add: resource_ok_def)
  with assms(2) have del: "delete_database now n op = (None, ?op')"
    by (rule delete_database_present)
  from assms(1) have "store_ok ?op'"
    by (simp add: store_ok_def distinct_delete list_all_delete)
  then obtain vs where vs: "list_databases ?op' = Inr (map StatusView vs)"
      "map view_name vs = map fst (databases ?op')"
    using list_databases_names by blast
  have gone: "n \<notin> set (map fst (databases ?op'))"
    by (simp add: delete_keys)
  then have "map_of (databases ?op') n = None"
    by (simp add: map_of_eq_None_iff)
  then have "get_database_status n ?op' = Inr (ErrorDict ''Database not found'')"
    by (rule get_database_status_absent)
  with del vs gone show ?thesis
    by (metis (no_types))
qed

theorem delete_database_removes_witness:
  "map_of (databases prod_ready) ''prod-db'' = Some prod_running \<and>
   (\<exists>op'. delete_database fixed_clock ''prod-db'' prod_ready = (None, op') \<and>
      list_databases op' = Inr [] \<and>
      get_database_status ''prod-db'' op' = Inr (ErrorDict ''Database not found''))"
proof -
  have ok: "store_ok prod_ready"
    unfolding prod_ready_def by (rule store_ok_run)
  have h: "map_of (databases prod_ready) ''prod-db'' = Some prod_running"
    by (simp add: prod_ready_eq)
  have e: "databases (snd (delete_database fixed_clock ''prod-db'' prod_ready)) = []"
    by code_simp
  from delete_database_removes [OF ok h, of fixed_clock] obtain op' vs where
    r: "delete_database fixed_clock ''prod-db'' prod_ready = (None, op')"
       "list_databases op' = Inr (map StatusView vs)"
       "map view_name vs = map fst (databases op')"
       "get_database_status ''prod-db'' op' = Inr (ErrorDict ''Database not found'')"
    by blast
  from r(1) e have "databases op' = []" by simp
  with r(3) have "vs = []" by simp
  with r h show ?thesis by simp
qed

text \<open>
  C9. For every resource in the store, \<^verbatim>\<open>backup_database\<close> returns the name followed by
  \<^verbatim>\<open>-backup-\<close> and the timestamp, and leaves the operator, so every phase and generation,
  as it was. For a clock reading with a four-digit year the timestamp has the shape
  \<^verbatim>\<open>YYYYMMDD-HHMMSS\<close>: fifteen characters, a dash at index 8, digits elsewhere, and the
  groups of digits read back as year, month, day, hour, minute and second. At the clock
  2024-01-01T12:00:00 the backup of \<^verbatim>\<open>prod-db\<close> is named
  \<^verbatim>\<open>prod-db-backup-20240101-120000\<close>.
\<close>

theorem backup_database_name:
  "(map_of (databases op) n \<noteq> None \<longrightarrow>
      backup_database now n op = (Some (n @ ''-backup-'' @ strftime now), op)) \<and>
   (valid_datetime now \<longrightarrow>
      length (strftime now) = 15 \<and> strftime now ! 8 = CHR ''-'' \<and>
      list_all is_digit (take 8 (strftime now)) \<and> list_all is_digit (drop 9 (strftime now)) \<and>
      read_nat (take 4 (strftime now)) = year now \<and>
      read_nat (take 2 (drop 4 (strftime now))) = month now \<and>
      read_nat (take 2 (drop 6 (strftime now))) = day now \<and>
      read_nat (take 2 (drop 9 (strftime now))) = hour now \<and>
      read_nat (take 2 (drop 11 (strftime now))) = minute now \<and>
      read_nat (drop 13 (strftime now)) = second now) \<and>
   backup_database fixed_clock ''prod-db'' prod_created =
     (Some ''prod-db-backup-20240101-120000'', prod_created)"
proof (intro conjI impI)
  assume "map_of (databases op) n \<noteq> None"
  then show "backup_database now n op = (Some (n @ ''-backup-'' @ strftime now), op)"
    by (auto simp: backup_database_def)
next
  show "backup_database fixed_clock ''prod-db'' prod_created =
     (Some ''prod-db-backup-20240101-120000'', prod_created)"
    by (simp add: backup_database_def prod_created_eq strftime_fixed_clock)
next
  show "list_all is_digit (take 8 (strftime now))"
    by (simp add: strftime_def pad2_def pad4_def is_digit_digit_char)
  show "list_all is_digit (drop 9 (strftime now))"
    by (simp add: strftime_def pad2_def pad4_def is_digit_digit_char)
next
  assume v: "valid_datetime now"
  from v show "read_nat (take 4 (strftime now)) = year now"
    by (simp add: strftime_fields read_nat_pad4 valid_datetime_def)
  from v show "read_nat (take 2 (drop 4 (strftime now))) = month now"
    by (simp add: strftime_fields read_nat_pad2 valid_datetime_def)
  from v show "read_nat (take 2 (drop 6 (strftime now))) = day now"
    by (simp add: strftime_fields read_nat_pad2 valid_datetime_def)
  from v show "read_nat (take 2 (drop 9 (strftime now))) = hour now"
    by (simp add: strftime_fields read_nat_pad2 valid_datetime_def)
  from v show "read_nat (take 2 (drop 11 (strftime now))) = minute now"
    by (simp add: strftime_fields read_nat_pad2 valid_datetime_def)
  from v show "read_nat (drop 13 (strftime now)) = second now"
    by (simp add: strftime_fields read_nat_pad2 valid_datetime_def)
qed (simp_all add: strftime_fields)

theorem backup_database_name_witness:
  "map_of (databases prod_created) ''prod-db'' \<noteq> None \<and> valid_datetime fixed_clock \<and>
   backup_database fixed_clock ''prod-db'' prod_created =
     (Some (''prod-db'' @ ''-backup-'' @ strftime fixed_clock), prod_created) \<and>
   read_nat (take 4 (strftime fixed_clock)) = 2024 \<and>
   read_nat (take 2 (drop 9 (strftime fixed_clock))) = 12"
proof -
  have h: "map_of (databases prod_created) ''prod-db'' \<noteq> None"
    by (simp add: prod_created_eq)
  have v: "valid_datetime fixed_clock"
    by (simp add: valid_datetime_def fixed_clock_def)
  have f: "year fixed_clock = 2024" "hour fixed_clock = 12"
    by (simp_all add: fixed_clock_def)
  from backup_database_name [of prod_created "''prod-db''" fixed_clock] h v f
  show ?thesis by simp
qed

end
